theory Spec2Isabelle
  imports Complex_Main
begin

section \<open>Python strings\<close>

text \<open>
  A Python \<open>str\<close> is a sequence of code points. The model is a \<open>string\<close> whose
  characters stand for the code points 0 to 255 (ASCII and Latin-1), one \<open>char\<close> per
  code point, so \<open>length\<close> is Python's \<open>len\<close> and \<open>take n\<close> is \<open>s[:n]\<close>.
\<close>

definition ord :: "char \<Rightarrow> nat" where
  "ord c = of_char c"

definition isspace :: "char \<Rightarrow> bool" where
  \<comment> \<open>\<open>str.isspace\<close> on one code point: the characters \<open>strip()\<close> and \<open>split()\<close> remove.\<close>
  "isspace c = ((9 \<le> ord c \<and> ord c \<le> 13) \<or> (28 \<le> ord c \<and> ord c \<le> 32)
                \<or> ord c = 133 \<or> ord c = 160)"

definition isdigit :: "char \<Rightarrow> bool" where
  \<comment> \<open>\<open>\d\<close> of a str pattern: the decimal digits (below code point 256 only 0-9).\<close>
  "isdigit c = (48 \<le> ord c \<and> ord c \<le> 57)"

definition isupper_ascii :: "char \<Rightarrow> bool" where
  "isupper_ascii c = (65 \<le> ord c \<and> ord c \<le> 90)"

definition islower_ascii :: "char \<Rightarrow> bool" where
  "islower_ascii c = (97 \<le> ord c \<and> ord c \<le> 122)"

definition isword :: "char \<Rightarrow> bool" where
  \<comment> \<open>\<open>\w\<close> of a str pattern: alphanumeric code points and the underscore.\<close>
  "isword c = (isdigit c \<or> isupper_ascii c \<or> islower_ascii c \<or> ord c = 95
               \<or> ord c = 170 \<or> ord c = 178 \<or> ord c = 179 \<or> ord c = 181
               \<or> ord c = 185 \<or> ord c = 186 \<or> (188 \<le> ord c \<and> ord c \<le> 190)
               \<or> (192 \<le> ord c \<and> ord c \<le> 214) \<or> (216 \<le> ord c \<and> ord c \<le> 246)
               \<or> 248 \<le> ord c)"

definition lower_char :: "char \<Rightarrow> char" where
  "lower_char c =
     (if isupper_ascii c \<or> (192 \<le> ord c \<and> ord c \<le> 222 \<and> ord c \<noteq> 215)
      then char_of (ord c + 32) else c)"

definition lower :: "string \<Rightarrow> string" where
  "lower s = map lower_char s"

fun startswith :: "string \<Rightarrow> string \<Rightarrow> bool" where
  "startswith s [] = True"
| "startswith [] (p # ps) = False"
| "startswith (c # cs) (p # ps) = (c = p \<and> startswith cs ps)"

fun str_in :: "string \<Rightarrow> string \<Rightarrow> bool" where
  \<comment> \<open>\<open>w in s\<close>: \<open>w\<close> occurs in \<open>s\<close> as a contiguous substring.\<close>
  "str_in w [] = (w = [])"
| "str_in w (c # cs) = (startswith (c # cs) w \<or> str_in w cs)"

definition strip :: "string \<Rightarrow> string" where
  "strip s = rev (dropWhile isspace (rev (dropWhile isspace s)))"

fun split_acc :: "string \<Rightarrow> string \<Rightarrow> string list" where
  "split_acc cur [] = (if cur = [] then [] else [cur])"
| "split_acc cur (c # cs) =
     (if isspace c then (if cur = [] then split_acc [] cs else cur # split_acc [] cs)
      else split_acc (cur @ [c]) cs)"

definition split :: "string \<Rightarrow> string list" where
  \<comment> \<open>\<open>s.split()\<close>: the maximal runs of non-whitespace characters.\<close>
  "split s = split_acc [] s"

fun split_on :: "char \<Rightarrow> string \<Rightarrow> string list" where
  \<comment> \<open>\<open>s.split(d)\<close> for a one-character delimiter: one segment more than delimiters.\<close>
  "split_on d [] = [[]]"
| "split_on d (c # cs) =
     (if c = d then [] # split_on d cs
      else (case split_on d cs of [] \<Rightarrow> [[c]] | w # ws \<Rightarrow> (c # w) # ws))"

fun join :: "string \<Rightarrow> string list \<Rightarrow> string" where
  "join sep [] = []"
| "join sep [x] = x"
| "join sep (x # y # ys) = x @ sep @ join sep (y # ys)"

section \<open>NLPService: the fallback heuristics\<close>

subsection \<open>Sentiment\<close>

definition positive_words :: "string list" where
  "positive_words =
     [''good'', ''great'', ''excellent'', ''positive'', ''success'', ''happy'', ''pleased'']"

definition negative_words :: "string list" where
  "negative_words =
     [''bad'', ''terrible'', ''negative'', ''failure'', ''unhappy'', ''disappointed'',
      ''problem'']"

definition count_present :: "string list \<Rightarrow> string \<Rightarrow> int" where
  \<comment> \<open>\<open>sum(1 for word in words if word in text_lower)\<close>\<close>
  "count_present words text_lower = int (length (filter (\<lambda>word. str_in word text_lower) words))"

definition calculate_sentiment :: "string \<Rightarrow> int" where
  "calculate_sentiment text =
     (let text_lower = lower text;
          positive_count = count_present positive_words text_lower;
          negative_count = count_present negative_words text_lower
      in if positive_count > negative_count
         then min 100 ((positive_count - negative_count) * 20)
         else if negative_count > positive_count
         then max (- 100) ((negative_count - positive_count) * (- 20))
         else 0)"

subsection \<open>Document type\<close>

definition invoice_keywords :: "string list" where
  "invoice_keywords = [''invoice'', ''bill'', ''payment'', ''amount due'']"

definition contract_keywords :: "string list" where
  "contract_keywords = [''contract'', ''agreement'', ''terms'', ''conditions'']"

definition report_keywords :: "string list" where
  "report_keywords = [''report'', ''analysis'', ''findings'', ''conclusion'']"

definition resume_keywords :: "string list" where
  "resume_keywords = [''resume'', ''cv'', ''curriculum vitae'', ''experience'']"

definition any_in :: "string list \<Rightarrow> string \<Rightarrow> bool" where
  \<comment> \<open>\<open>any(word in text_lower for word in words)\<close>\<close>
  "any_in words text_lower = list_ex (\<lambda>word. str_in word text_lower) words"

definition detect_document_type :: "string \<Rightarrow> string" where
  "detect_document_type text =
     (let text_lower = lower text
      in if any_in invoice_keywords text_lower then ''invoice''
         else if any_in contract_keywords text_lower then ''contract''
         else if any_in report_keywords text_lower then ''report''
         else if any_in resume_keywords text_lower then ''resume''
         else ''general_document'')"

subsection \<open>Summary\<close>

definition generate_summary :: "string \<Rightarrow> string" where
  "generate_summary text =
     (let sentences = split_on (CHR ''.'') text
      in if length sentences > 3 then join ''. '' (take 2 sentences) @ ''.''
         else if length text > 200 then take 200 text @ ''...'' else text)"

subsection \<open>Regular expressions\<close>

text \<open>
  The three patterns of \<open>_extract_entities_regex\<close> are alternations of sequences whose
  elements are the word boundary \<open>\b\<close> and character classes under a greedy quantifier
  \<open>{lo,hi}\<close> (\<open>+\<close> is \<open>{1,}\<close>, \<open>*\<close> is \<open>{0,}\<close>, \<open>?\<close> is \<open>{0,1}\<close>, a single
  character is \<open>{1,1}\<close>). The matcher is the backtracking search of Python's \<open>re\<close>:
  the alternatives in order, each quantifier first at its longest, then shorter.
\<close>

datatype item = Boundary | Rep "char \<Rightarrow> bool" nat "nat option"

type_synonym pattern = "item list list"

definition one :: "(char \<Rightarrow> bool) \<Rightarrow> item" where
  "one cls = Rep cls 1 (Some 1)"

definition lit :: "char \<Rightarrow> item" where
  "lit c = one (\<lambda>x. x = c)"

definition at_boundary :: "char option \<Rightarrow> string \<Rightarrow> bool" where
  \<comment> \<open>\<open>\b\<close> between the character before the position and the rest of the text.\<close>
  "at_boundary prev s =
     ((case prev of None \<Rightarrow> False | Some c \<Rightarrow> isword c)
      \<noteq> (case s of [] \<Rightarrow> False | c # _ \<Rightarrow> isword c))"

definition prev_after :: "char option \<Rightarrow> string \<Rightarrow> nat \<Rightarrow> char option" where
  \<comment> \<open>The character before the position reached after consuming \<open>k\<close> characters of \<open>s\<close>.\<close>
  "prev_after prev s k = (if k = 0 then prev else Some (s ! (k - 1)))"

fun first_some :: "('a \<Rightarrow> 'b option) \<Rightarrow> 'a list \<Rightarrow> 'b option" where
  "first_some f [] = None"
| "first_some f (x # xs) = (case f x of Some y \<Rightarrow> Some y | None \<Rightarrow> first_some f xs)"

fun match_seq :: "item list \<Rightarrow> char option \<Rightarrow> string \<Rightarrow> nat option" where
  \<comment> \<open>The length of the match of the sequence at the start of \<open>s\<close>, if there is one.\<close>
  "match_seq [] prev s = Some 0"
| "match_seq (Boundary # items) prev s =
     (if at_boundary prev s then match_seq items prev s else None)"
| "match_seq (Rep cls lo hi # items) prev s =
     (let n = length (takeWhile cls s);
          top = (case hi of None \<Rightarrow> n | Some h \<Rightarrow> min h n)
      in first_some
           (\<lambda>k. map_option (\<lambda>m. k + m) (match_seq items (prev_after prev s k) (drop k s)))
           (rev [lo..<Suc top]))"

definition match_at :: "pattern \<Rightarrow> char option \<Rightarrow> string \<Rightarrow> nat option" where
  "match_at p prev s = first_some (\<lambda>alt. match_seq alt prev s) p"

fun scan :: "pattern \<Rightarrow> nat \<Rightarrow> char option \<Rightarrow> string \<Rightarrow> string list" where
  \<comment> \<open>Left to right, non-overlapping: \<open>skip\<close> characters still belong to the last match.\<close>
  "scan p skip prev [] = []"
| "scan p (Suc skip) prev (c # cs) = scan p skip (Some c) cs"
| "scan p 0 prev (c # cs) =
     (case match_at p prev (c # cs) of
        None \<Rightarrow> scan p 0 (Some c) cs
      | Some m \<Rightarrow> take m (c # cs) # scan p (m - 1) (Some c) cs)"

definition findall :: "pattern \<Rightarrow> string \<Rightarrow> string list" where
  \<comment> \<open>\<open>re.findall\<close> for a pattern without groups whose matches are never empty.\<close>
  "findall p text = scan p 0 None text"

text \<open>The least number of characters a sequence can match.\<close>

fun min_length :: "item list \<Rightarrow> nat" where
  "min_length [] = 0"
| "min_length (Boundary # items) = min_length items"
| "min_length (Rep cls lo hi # items) = lo + min_length items"

subsection \<open>Entities\<close>

definition date_sep :: "char \<Rightarrow> bool" where
  "date_sep c = (c = CHR ''/'' \<or> c = CHR ''-'')"

definition date_pattern :: pattern where
  \<comment> \<open>\<^verbatim>\<open>\b\d{1,2}[/-]\d{1,2}[/-]\d{2,4}\b|\b\d{4}[/-]\d{1,2}[/-]\d{1,2}\b\<close>\<close>
  "date_pattern =
     [[Boundary, Rep isdigit 1 (Some 2), one date_sep, Rep isdigit 1 (Some 2), one date_sep,
       Rep isdigit 2 (Some 4), Boundary],
      [Boundary, Rep isdigit 4 (Some 4), one date_sep, Rep isdigit 1 (Some 2), one date_sep,
       Rep isdigit 1 (Some 2), Boundary]]"

definition amount_pattern :: pattern where
  \<comment> \<open>\<^verbatim>\<open>\$[\d,]+\.?\d*|\b\d+\.\d{2}\b\<close>\<close>
  "amount_pattern =
     [[lit (CHR ''$''), Rep (\<lambda>c. isdigit c \<or> c = CHR '','') 1 None,
       Rep (\<lambda>c. c = CHR ''.'') 0 (Some 1), Rep isdigit 0 None],
      [Boundary, Rep isdigit 1 None, lit (CHR ''.''), Rep isdigit 2 (Some 2), Boundary]]"

definition email_local :: "char \<Rightarrow> bool" where
  \<comment> \<open>\<^verbatim>\<open>[A-Za-z0-9._%+-]\<close>\<close>
  "email_local c = (isupper_ascii c \<or> islower_ascii c \<or> isdigit c \<or> c \<in> set ''._%+-'')"

definition email_domain :: "char \<Rightarrow> bool" where
  \<comment> \<open>\<^verbatim>\<open>[A-Za-z0-9.-]\<close>\<close>
  "email_domain c = (isupper_ascii c \<or> islower_ascii c \<or> isdigit c \<or> c \<in> set ''.-'')"

definition email_tld :: "char \<Rightarrow> bool" where
  \<comment> \<open>\<^verbatim>\<open>[A-Z|a-z]\<close>: the bar is a member of the class.\<close>
  "email_tld c = (isupper_ascii c \<or> c = CHR ''|'' \<or> islower_ascii c)"

definition email_pattern :: pattern where
  \<comment> \<open>\<^verbatim>\<open>\b[A-Za-z0-9._%+-]+@[A-Za-z0-9.-]+\.[A-Z|a-z]{2,}\b\<close>\<close>
  "email_pattern =
     [[Boundary, Rep email_local 1 None, lit (CHR ''@''), Rep email_domain 1 None,
       lit (CHR ''.''), Rep email_tld 2 None, Boundary]]"

text \<open>
  \<open>list(set(xs))\<close> holds each element of \<open>xs\<close> once, in the iteration order of the set.
  That order is fixed by the interpreter's string hashing and the insertions made; the
  model takes it as a parameter \<open>h\<close>, a rank of the elements that may depend on \<open>xs\<close>.
\<close>

type_synonym set_order = "string list \<Rightarrow> string \<Rightarrow> nat"

definition list_set :: "set_order \<Rightarrow> string list \<Rightarrow> string list" where
  "list_set h xs = sort_key (h xs) (remdups xs)"

record entities =
  names :: "string list"
  dates :: "string list"
  amounts :: "string list"
  other :: "string list"

definition extract_entities_regex :: "set_order \<Rightarrow> string \<Rightarrow> entities" where
  "extract_entities_regex h text =
     (let entities = \<lparr>names = [], dates = [], amounts = [], other = []\<rparr>;
          entities = entities\<lparr>dates := list_set h (findall date_pattern text)\<rparr>;
          entities = entities\<lparr>amounts := list_set h (findall amount_pattern text)\<rparr>;
          entities = entities\<lparr>other := list_set h (findall email_pattern text)\<rparr>
      in entities)"

subsection \<open>Values of Python dictionaries and of parsed JSON\<close>

datatype pyval =
    PNone
  | PBool bool
  | PInt int
  | PFloat rat
  | PStr string
  | PList "pyval list"
  | PDict "(string \<times> pyval) list"

datatype py_error = ZeroDivisionError | AttributeError string string

definition type_name :: "pyval \<Rightarrow> string" where
  "type_name v =
     (case v of PNone \<Rightarrow> ''NoneType'' | PBool _ \<Rightarrow> ''bool'' | PInt _ \<Rightarrow> ''int''
      | PFloat _ \<Rightarrow> ''float'' | PStr _ \<Rightarrow> ''str'' | PList _ \<Rightarrow> ''list''
      | PDict _ \<Rightarrow> ''dict'')"

definition str_error :: "py_error \<Rightarrow> string" where
  \<comment> \<open>\<open>str(e)\<close>\<close>
  "str_error e =
     (case e of
        ZeroDivisionError \<Rightarrow> ''division by zero''
      | AttributeError ty attr \<Rightarrow>
          [CHR 0x27] @ ty @ [CHR 0x27] @ '' object has no attribute '' @
          [CHR 0x27] @ attr @ [CHR 0x27])"

definition get :: "pyval \<Rightarrow> string \<Rightarrow> pyval \<Rightarrow> py_error + pyval" where
  \<comment> \<open>\<open>d.get(k, default)\<close>: only a dictionary has the method.\<close>
  "get d k dflt =
     (case d of
        PDict kvs \<Rightarrow> Inr (case map_of kvs k of None \<Rightarrow> dflt | Some v \<Rightarrow> v)
      | _ \<Rightarrow> Inl (AttributeError (type_name d) ''get''))"

subsection \<open>Fallback analysis\<close>

definition py_entities :: "entities \<Rightarrow> pyval" where
  "py_entities e =
     PDict [(''names'', PList (map PStr (names e))),
            (''dates'', PList (map PStr (dates e))),
            (''amounts'', PList (map PStr (amounts e))),
            (''other'', PList (map PStr (other e)))]"

definition fallback_analysis :: "set_order \<Rightarrow> string \<Rightarrow> pyval" where
  "fallback_analysis h text =
     (let document_type = detect_document_type text;
          key_entities = extract_entities_regex h text;
          summary = generate_summary text;
          sentiment_score = calculate_sentiment text
      in PDict [(''document_type'', PStr document_type),
                (''key_entities'', py_entities key_entities),
                (''summary'', PStr summary),
                (''sentiment_score'', PInt sentiment_score)])"

subsection \<open>analyze_document\<close>

text \<open>
  The \<open>try\<close> block of \<open>analyze_document\<close> sends one request built from \<open>text[:4000]\<close>
  and parses the reply with \<open>json.loads\<close>. Whatever goes wrong there (the network, an
  empty choice list, a reply that is no JSON) is an exception; otherwise the block has the
  parsed value. The backend is a function from the text sent to one of the two outcomes.
\<close>

datatype remote_outcome = RemoteRaises string | RemoteJson pyval

definition has_client :: "string option \<Rightarrow> bool" where
  \<comment> \<open>\<open>self.client\<close> is set when \<open>settings.openai_api_key\<close> is a non-empty string.\<close>
  "has_client api_key = (case api_key of None \<Rightarrow> False | Some k \<Rightarrow> k \<noteq> [])"

definition analyze_document ::
  "string option \<Rightarrow> (string \<Rightarrow> remote_outcome) \<Rightarrow> set_order \<Rightarrow> string \<Rightarrow> pyval \<times> nat" where
  \<comment> \<open>The value returned and the number of requests sent to the backend.\<close>
  "analyze_document api_key backend h text =
     (if \<not> has_client api_key then (fallback_analysis h text, 0)
      else (case backend (take 4000 text) of
              RemoteJson result \<Rightarrow> (result, 1)
            | RemoteRaises e \<Rightarrow> (fallback_analysis h text, 1)))"

section \<open>OCRService\<close>

text \<open>
  The OCR engine either raises somewhere in the \<open>try\<close> block (opening or converting the
  image, either Tesseract call) or delivers the per-token confidences, read as integers,
  and the text.
\<close>

datatype ocr_engine_outcome = OcrRaises string | OcrData "int list" string

record ocr_result =
  ocr_text :: string
  confidence :: pyval
  word_count :: nat
  character_count :: nat
  error :: "string option"

subsection \<open>Floats\<close>

text \<open>
  A Python float is an IEEE 754 double, and \<open>PFloat\<close> holds the exact value of the
  double, a rational number. The quotient of two integers and the conversion of a decimal
  to a float are correctly rounded in CPython: the result is the double nearest to the
  exact value, and of two doubles equally near the one with the even significand.
  \<open>round_to_double\<close> is that rounding: a double has 53 significant bits, so the doubles
  around a number \<open>q\<close> with \<open>2^e \<le> |q| < 2^(e+1)\<close> are the multiples of \<open>2^(e-52)\<close>
  (of \<open>2^(-1074)\<close> below the normal range). The mean of positive confidences lies
  between 1 and the largest of them, which for Tesseract is 100; the overflow of a double
  is out of its reach and has no part in the model.
\<close>

fun bit_length :: "nat \<Rightarrow> nat" where
  \<comment> \<open>The number of binary digits of \<open>n\<close>.\<close>
  "bit_length n = (if n = 0 then 0 else Suc (bit_length (n div 2)))"

declare bit_length.simps [simp del]

definition exponent :: "rat \<Rightarrow> int" where
  \<comment> \<open>For \<open>q > 0\<close>, the \<open>e\<close> with \<open>2^e \<le> q < 2^(e+1)\<close>.\<close>
  "exponent q =
     (case quotient_of q of
        (n, d) \<Rightarrow>
          let e = int (bit_length (nat n)) - int (bit_length (nat d))
          in if 2 powi e \<le> q then e else e - 1)"

definition round_half_even :: "rat \<Rightarrow> int" where
  \<comment> \<open>The nearest integer, and of two equally near the even one.\<close>
  "round_half_even q =
     (let f = \<lfloor>q\<rfloor>; d = q - of_int f
      in if d < 1 / 2 then f else if 1 / 2 < d then f + 1 else if even f then f else f + 1)"

definition round_to_double :: "rat \<Rightarrow> rat" where
  "round_to_double q =
     (if q = 0 then 0
      else let ulp = 2 powi (max (exponent \<bar>q\<bar>) (- 1022) - 52)
           in sgn q * (of_int (round_half_even (\<bar>q\<bar> / ulp)) * ulp))"

definition py_truediv :: "int \<Rightarrow> int \<Rightarrow> py_error + pyval" where
  \<comment> \<open>\<open>a / b\<close> on integers: the double nearest to the exact quotient.\<close>
  "py_truediv a b =
     (if b = 0 then Inl ZeroDivisionError
      else Inr (PFloat (round_to_double (of_int a / of_int b))))"

definition py_round2 :: "pyval \<Rightarrow> pyval" where
  \<comment> \<open>\<open>round(x, 2)\<close>: an int is returned as it is. A float is written with two decimals,
      correctly rounded from the exact value of the double (a tie goes to the even last
      digit), and the decimal is read back as the nearest double.\<close>
  "py_round2 x =
     (case x of
        PFloat q \<Rightarrow> PFloat (round_to_double (of_int (round_half_even (q * 100)) / 100))
      | _ \<Rightarrow> x)"

subsection \<open>extract_text\<close>

definition average_confidence :: "int list \<Rightarrow> py_error + pyval" where
  \<comment> \<open>\<open>sum(confidences) / len(confidences) if confidences else 0\<close>\<close>
  "average_confidence confidences =
     (if confidences \<noteq> [] then py_truediv (sum_list confidences) (int (length confidences))
      else Inr (PInt 0))"

definition ocr_failure :: "string \<Rightarrow> ocr_result" where
  \<comment> \<open>The dictionary returned by the \<open>except Exception\<close> handler of \<open>extract_text\<close>.\<close>
  "ocr_failure e =
     \<lparr>ocr_text = [], confidence = PInt 0, word_count = 0, character_count = 0,
      error = Some e\<rparr>"

definition extract_text :: "ocr_engine_outcome \<Rightarrow> ocr_result" where
  "extract_text engine =
     (case engine of
        OcrRaises e \<Rightarrow> ocr_failure e
      | OcrData conf text \<Rightarrow>
          (let confidences = filter (\<lambda>c. c > 0) conf
           in case average_confidence confidences of
                Inl e \<Rightarrow> ocr_failure (str_error e)
              | Inr avg_confidence \<Rightarrow>
                  \<lparr>ocr_text = strip text, confidence = py_round2 avg_confidence,
                   word_count = length (split text), character_count = length text,
                   error = None\<rparr>))"

section \<open>DocumentProcessor\<close>

text \<open>
  What \<open>process_document\<close> reads from outside: the configured credential, the remote
  backend, the iteration order of sets, the OCR engine and the file system (a file's text,
  or the message of the exception that \<open>open\<close> or \<open>read\<close> raises), and the clock.
\<close>

record env =
  openai_api_key :: "string option"
  remote :: "string \<Rightarrow> remote_outcome"
  set_iteration :: set_order
  ocr_engine :: "string \<Rightarrow> ocr_engine_outcome"
  read_file :: "string \<Rightarrow> string + string"
  now_start :: string
  now_end :: string

text \<open>The result dictionary; a key that was never assigned is \<open>None\<close>.\<close>

record processing_record =
  file_path :: string
  mime_type :: string
  processing_started_at :: string
  steps_completed :: "string list"
  errors :: "string list"
  ocr_result :: "ocr_result option"
  nlp_result :: "pyval option"
  extracted_text :: "string option"
  document_type :: "pyval option"
  key_entities :: "pyval option"
  summary :: "pyval option"
  sentiment_score :: "pyval option"
  confidence_score :: "pyval option"
  processing_completed_at :: "string option"
  status :: "string option"

definition failed :: "env \<Rightarrow> processing_record \<Rightarrow> string \<Rightarrow> processing_record" where
  \<comment> \<open>The \<open>except Exception\<close> handler of \<open>process_document\<close>.\<close>
  "failed env result e =
     result\<lparr>errors := errors result @ [e], status := Some ''failed'',
            processing_completed_at := Some (now_end env)\<rparr>"

definition compile_results ::
  "env \<Rightarrow> processing_record \<Rightarrow> ocr_result option \<Rightarrow> string \<Rightarrow> pyval \<Rightarrow> processing_record" where
  \<comment> \<open>Step 3; \<open>ocr\<close> is the OCR result of an image and \<open>None\<close> for a text file.\<close>
  "compile_results env result ocr text nlp =
     (let result = result\<lparr>extracted_text := Some text\<rparr>
      in case get nlp ''document_type'' (PStr ''unknown'') of
           Inl e \<Rightarrow> failed env result (str_error e)
         | Inr v1 \<Rightarrow>
      let result = result\<lparr>document_type := Some v1\<rparr>
      in case get nlp ''key_entities'' (PDict []) of
           Inl e \<Rightarrow> failed env result (str_error e)
         | Inr v2 \<Rightarrow>
      let result = result\<lparr>key_entities := Some v2\<rparr>
      in case get nlp ''summary'' (PStr []) of
           Inl e \<Rightarrow> failed env result (str_error e)
         | Inr v3 \<Rightarrow>
      let result = result\<lparr>summary := Some v3\<rparr>
      in case get nlp ''sentiment_score'' (PInt 0) of
           Inl e \<Rightarrow> failed env result (str_error e)
         | Inr v4 \<Rightarrow>
      let result = result\<lparr>sentiment_score := Some v4\<rparr>;
          result = result\<lparr>confidence_score :=
                     Some (case ocr of Some r \<Rightarrow> confidence r | None \<Rightarrow> PInt 100)\<rparr>;
          result = result\<lparr>processing_completed_at := Some (now_end env)\<rparr>
      in result\<lparr>status := Some ''completed''\<rparr>)"

definition nlp_step ::
  "env \<Rightarrow> processing_record \<Rightarrow> ocr_result option \<Rightarrow> string \<Rightarrow> processing_record" where
  \<comment> \<open>Step 2 and what follows it.\<close>
  "nlp_step env result ocr text =
     (if strip text \<noteq> [] then
        (let nlp = fst (analyze_document (openai_api_key env) (remote env)
                          (set_iteration env) text);
             result = result\<lparr>nlp_result := Some nlp\<rparr>;
             result = result\<lparr>steps_completed := steps_completed result @ [''nlp_analysis'']\<rparr>
         in compile_results env result ocr text nlp)
      else result\<lparr>errors := errors result @ [''No text extracted from document'']\<rparr>)"

definition process_document :: "env \<Rightarrow> string \<Rightarrow> string \<Rightarrow> processing_record" where
  "process_document env path mime =
     (let result =
            \<lparr>file_path = path, mime_type = mime, processing_started_at = now_start env,
             steps_completed = [], errors = [], ocr_result = None, nlp_result = None,
             extracted_text = None, document_type = None, key_entities = None,
             summary = None, sentiment_score = None, confidence_score = None,
             processing_completed_at = None, status = None\<rparr>
      in if startswith mime ''image/'' then
           (let ocr = extract_text (ocr_engine env path);
                result = result\<lparr>ocr_result := Some ocr\<rparr>;
                result = result\<lparr>steps_completed := steps_completed result @ [''ocr'']\<rparr>
            in case error ocr of
                 Some (c # cs) \<Rightarrow>
                   result\<lparr>errors := errors result @ [''OCR failed: '' @ c # cs]\<rparr>
               | _ \<Rightarrow> nlp_step env result (Some ocr) (ocr_text ocr))
         else
           (case read_file env path of
              Inl e \<Rightarrow> failed env result e
            | Inr text \<Rightarrow>
                nlp_step env
                  (result\<lparr>steps_completed := steps_completed result @ [''text_extraction'']\<rparr>)
                  None text))"

section \<open>Notions of the specification\<close>


definition mean :: "int list \<Rightarrow> rat" where
  \<comment> \<open>The arithmetic mean of a non-empty list of integers.\<close>
  "mean xs = of_int (sum_list xs) / of_nat (length xs)"

definition hundredths :: "int list \<Rightarrow> int" where
  \<comment> \<open>The number of hundredths that rounding the float mean to two decimals arrives at.\<close>
  "hundredths xs = round_half_even (round_to_double (mean xs) * 100)"

definition occurs_in :: "string \<Rightarrow> string \<Rightarrow> bool" where
  \<comment> \<open>\<open>w\<close> is a contiguous part of \<open>s\<close>.\<close>
  "occurs_in w s = (\<exists>p q. s = p @ w @ q)"





section \<open>Example inputs\<close>

definition insertion_order :: set_order where
  \<comment> \<open>The iteration order that keeps the elements as they were inserted.\<close>
  "insertion_order xs x = 0"

definition latest_first :: set_order where
  \<comment> \<open>The iteration order that yields the elements inserted last first.\<close>
  "latest_first xs x = length (dropWhile (\<lambda>y. y \<noteq> x) xs)"

definition remote_returning :: "pyval \<Rightarrow> string \<Rightarrow> remote_outcome" where
  \<comment> \<open>A backend whose reply parses to the given JSON value.\<close>
  "remote_returning j prompt = RemoteJson j"

definition remote_down :: "string \<Rightarrow> remote_outcome" where
  "remote_down prompt = RemoteRaises ''Connection error.''"

definition ocr_of :: "ocr_engine_outcome \<Rightarrow> string \<Rightarrow> ocr_engine_outcome" where
  "ocr_of outcome path = outcome"

definition file_with :: "string \<Rightarrow> string \<Rightarrow> string + string" where
  "file_with content path = Inr content"

definition quarter_text :: string where
  "quarter_text = ''Great results this quarter, revenue $2.5M, date 2024-01-15''"

definition env_text :: env where
  \<comment> \<open>No credential; every path holds the text of the quarter report.\<close>
  "env_text =
     \<lparr>openai_api_key = None, remote = remote_down, set_iteration = insertion_order,
      ocr_engine = ocr_of (OcrRaises ''cannot identify image file''),
      read_file = file_with quarter_text,
      now_start = ''2024-01-15T10:00:00'', now_end = ''2024-01-15T10:00:01''\<rparr>"

definition env_blank :: env where
  \<comment> \<open>A blank image: no token, and a text that is a single form feed.\<close>
  "env_blank = env_text\<lparr>ocr_engine := ocr_of (OcrData [-1] [CHR 0x0C])\<rparr>"

definition scan_conf :: "int list" where
  \<comment> \<open>Tesseract reports -1 for a box that is not a word.\<close>
  "scan_conf = [-1, 96, 0, 95, 92]"

definition scan_raw :: string where
  \<comment> \<open>Three words, followed by the engine's line feed.\<close>
  "scan_raw = ''Invoice 42 paid'' @ [CHR 0x0A]"

definition tie_conf :: "int list" where
  \<comment> \<open>Forty confidences with the mean 94.325.\<close>
  "tie_conf = replicate 39 95 @ [68]"

definition tie_conf_low :: "int list" where
  \<comment> \<open>Forty confidences with the mean 92.675.\<close>
  "tie_conf_low = replicate 39 95 @ [2]"

definition eighth_conf :: "int list" where
  \<comment> \<open>Eight confidences with the mean 94.125, which is a double.\<close>
  "eighth_conf = replicate 7 94 @ [95]"

definition env_scan :: env where
  "env_scan = env_text\<lparr>ocr_engine := ocr_of (OcrData scan_conf scan_raw)\<rparr>"

definition env_remote_list :: env where
  \<comment> \<open>A credential is configured and the backend replies with the JSON text \<open>[]\<close>.\<close>
  "env_remote_list =
     env_text\<lparr>openai_api_key := Some ''sk-test'', remote := remote_returning (PList [])\<rparr>"

definition contact_text :: string where
  "contact_text = ''Contact a@b.com on 2024-01-15 for $1,250.00''"


definition two_dates_text :: string where
  "two_dates_text = ''Due 2024-01-15, paid 2024-02-01''"

definition env_dates :: env where
  \<comment> \<open>No credential; every path holds the text with two dates.\<close>
  "env_dates = env_text\<lparr>read_file := file_with two_dates_text\<rparr>"

definition env_dates_later :: env where
  \<comment> \<open>The same in the same interpreter, at another time and with another backend.\<close>
  "env_dates_later =
     env_dates\<lparr>remote := remote_returning (PList []), now_start := ''2024-02-01T08:30:00'',
               now_end := ''2024-02-01T08:30:02''\<rparr>"

definition env_dates_rehashed :: env where
  \<comment> \<open>The same in an interpreter whose sets iterate in another order.\<close>
  "env_dates_rehashed = env_dates\<lparr>set_iteration := latest_first\<rparr>"

section \<open>Properties of the string operations\<close>

lemma startswith_iff: "startswith s p \<longleftrightarrow> (\<exists>q. s = p @ q)"
  by (induction s p rule: startswith.induct) auto

text \<open>\<open>str_in\<close> is containment as a contiguous substring.\<close>

lemma str_in_iff: "str_in w s \<longleftrightarrow> (\<exists>p q. s = p @ w @ q)"
proof (induction s)
  case Nil
  then show ?case by auto
next
  case (Cons c cs)
  show ?case
  proof
    assume "str_in w (c # cs)"
    then consider "startswith (c # cs) w" | "str_in w cs" by auto
    then show "\<exists>p q. c # cs = p @ w @ q"
    proof cases
      case 1
      then obtain q where "c # cs = w @ q" by (auto simp: startswith_iff)
      then have "c # cs = [] @ w @ q" by simp
      then show ?thesis by blast
    next
      case 2
      then obtain p q where "cs = p @ w @ q" using Cons.IH by blast
      then have "c # cs = (c # p) @ w @ q" by simp
      then show ?thesis by blast
    qed
  next
    assume "\<exists>p q. c # cs = p @ w @ q"
    then obtain p q where pq: "c # cs = p @ w @ q" by blast
    show "str_in w (c # cs)"
    proof (cases p)
      case Nil
      with pq have "startswith (c # cs) w" by (auto simp: startswith_iff)
      then show ?thesis by simp
    next
      case (Cons a p')
      with pq have "cs = p' @ w @ q" by simp
      then have "str_in w cs" using Cons.IH by blast
      then show ?thesis by simp
    qed
  qed
qed

section \<open>The sentiment score\<close>

lemma count_present_bounds: "0 \<le> count_present ws s \<and> count_present ws s \<le> int (length ws)"
  by (simp add: count_present_def)

lemma any_in_iff: "any_in ws s \<longleftrightarrow> (\<exists>w\<in>set ws. str_in w s)"
  by (simp add: any_in_def list_ex_iff)

lemma count_present_none: "\<forall>w\<in>set ws. \<not> str_in w s \<Longrightarrow> count_present ws s = 0"
  by (simp add: count_present_def)

lemma sentiment_range: "- 100 \<le> calculate_sentiment t \<and> calculate_sentiment t \<le> 100"
  unfolding calculate_sentiment_def Let_def
  using count_present_bounds [of positive_words "lower t"]
        count_present_bounds [of negative_words "lower t"]
  by auto

text \<open>
  Claim C2, as the code has it. The two counts are the numbers of listed words that occur
  in the lower-cased text at least once, not the numbers of occurrences: with them the
  score is \<open>min(100, (positive - negative) * 20)\<close> when the positive count is larger,
  \<open>max(-100, (negative - positive) * -20)\<close> when the negative count is larger, and 0
  otherwise. The text "great great good" holds two of the positive words and scores 40, a
  text that holds none of the listed words scores 0, and every score lies between -100 and
  100.
\<close>

theorem calculate_sentiment_by_presence:
  "calculate_sentiment t =
     (if count_present positive_words (lower t) > count_present negative_words (lower t)
      then min 100 ((count_present positive_words (lower t)
                      - count_present negative_words (lower t)) * 20)
      else if count_present negative_words (lower t) > count_present positive_words (lower t)
      then max (- 100) ((count_present negative_words (lower t)
                          - count_present positive_words (lower t)) * (- 20))
      else 0)
   \<and> calculate_sentiment ''great great good'' = 40
   \<and> (\<not> any_in (positive_words @ negative_words) (lower t) \<longrightarrow> calculate_sentiment t = 0)
   \<and> - 100 \<le> calculate_sentiment t \<and> calculate_sentiment t \<le> 100"
proof -
  have a: "calculate_sentiment ''great great good'' = 40" by code_simp
  have b: "\<not> any_in (positive_words @ negative_words) (lower t) \<longrightarrow> calculate_sentiment t = 0"
    by (simp add: calculate_sentiment_def count_present_none any_in_iff)
  show ?thesis using a b sentiment_range [of t]
    by (simp add: calculate_sentiment_def Let_def)
qed

theorem calculate_sentiment_by_presence_witness:
  "\<not> any_in (positive_words @ negative_words) (lower ''Meeting at NOON'')
   \<and> calculate_sentiment ''Meeting at NOON'' = 0"
proof -
  have h: "\<not> any_in (positive_words @ negative_words) (lower ''Meeting at NOON'')"
    by code_simp
  with calculate_sentiment_by_presence [of "''Meeting at NOON''"] show ?thesis by blast
qed

text \<open>
  The score of "great great good" is not 60: the word "great" is counted once however
  often it occurs.
\<close>

theorem sentiment_great_great_good_not_60:
  "calculate_sentiment ''great great good'' \<noteq> 60"
  by code_simp

section \<open>The document type\<close>



section \<open>The entities\<close>

lemma list_set_Nil: "list_set h [] = []"
  by (simp add: list_set_def)

lemma list_set_single: "list_set h [x] = [x]"
  by (simp add: list_set_def)

lemma set_list_set: "set (list_set h xs) = set xs"
  by (simp add: list_set_def)

lemma distinct_list_set: "distinct (list_set h xs)"
  by (simp add: list_set_def)

lemma findall_empty: "findall p [] = []"
  by (simp add: findall_def)

text \<open>
  No match of the three patterns is empty, so \<open>scan\<close> always moves on past a match
  as \<open>re.findall\<close> does.
\<close>

lemma first_some_Some: "first_some f xs = Some y \<Longrightarrow> \<exists>x\<in>set xs. f x = Some y"
  by (induction xs) (auto split: option.splits)

lemma match_seq_min_length: "match_seq items prev s = Some n \<Longrightarrow> min_length items \<le> n"
proof (induction items prev s arbitrary: n rule: match_seq.induct)
  case (1 prev s)
  then show ?case by simp
next
  case (2 items prev s)
  then show ?case by (auto split: if_splits)
next
  case (3 cls lo hi items prev s)
  define top where "top = (case hi of None \<Rightarrow> length (takeWhile cls s)
                            | Some h \<Rightarrow> min h (length (takeWhile cls s)))"
  from "3.prems" have
    "first_some
       (\<lambda>k. map_option (\<lambda>m. k + m) (match_seq items (prev_after prev s k) (drop k s)))
       (rev [lo..<Suc top]) = Some n"
    by (simp add: Let_def top_def)
  from first_some_Some [OF this] obtain k where k: "k \<in> set (rev [lo..<Suc top])"
    and m: "map_option (\<lambda>m. k + m) (match_seq items (prev_after prev s k) (drop k s)) = Some n"
    by blast
  from m obtain m' where m': "match_seq items (prev_after prev s k) (drop k s) = Some m'"
    and n: "n = k + m'" by auto
  have "min_length items \<le> m'"
    using "3.IH" [OF refl refl m'] .
  moreover have "lo \<le> k" using k by auto
  ultimately show ?case using n by simp
qed

lemma match_at_nonempty:
  "match_at p prev s = Some n \<Longrightarrow> \<forall>alt\<in>set p. 0 < min_length alt \<Longrightarrow> 0 < n"
  unfolding match_at_def
  by (drule first_some_Some) (auto dest!: match_seq_min_length)

lemma patterns_never_match_empty:
  "match_at date_pattern prev s \<noteq> Some 0"
  "match_at amount_pattern prev s \<noteq> Some 0"
  "match_at email_pattern prev s \<noteq> Some 0"
proof -
  have "\<forall>alt\<in>set date_pattern. 0 < min_length alt"
    by (simp add: date_pattern_def one_def lit_def)
  then show "match_at date_pattern prev s \<noteq> Some 0"
    using match_at_nonempty [of date_pattern prev s 0] by auto
  have "\<forall>alt\<in>set amount_pattern. 0 < min_length alt"
    by (simp add: amount_pattern_def one_def lit_def)
  then show "match_at amount_pattern prev s \<noteq> Some 0"
    using match_at_nonempty [of amount_pattern prev s 0] by auto
  have "\<forall>alt\<in>set email_pattern. 0 < min_length alt"
    by (simp add: email_pattern_def one_def lit_def)
  then show "match_at email_pattern prev s \<noteq> Some 0"
    using match_at_nonempty [of email_pattern prev s 0] by auto
qed

lemma contact_dates: "findall date_pattern contact_text = [''2024-01-15'']"
  by code_simp

lemma contact_amounts: "findall amount_pattern contact_text = [''$1,250.00'']"
  by code_simp

lemma contact_emails: "findall email_pattern contact_text = [''a@b.com'']"
  by code_simp

text \<open>
  Claim C9. On the text "Contact a@b.com on 2024-01-15 for $1,250.00" the fallback finds
  the one date "2024-01-15", the one amount "$1,250.00" and the one address "a@b.com",
  and no name. On every text, and whatever the iteration order of sets, the names are
  empty and each of the other categories holds every match of its pattern exactly once.
\<close>

theorem extract_entities_regex_sets:
  "dates (extract_entities_regex h contact_text) = [''2024-01-15'']
   \<and> amounts (extract_entities_regex h contact_text) = [''$1,250.00'']
   \<and> other (extract_entities_regex h contact_text) = [''a@b.com'']
   \<and> names (extract_entities_regex h contact_text) = []
   \<and> names (extract_entities_regex h t) = []
   \<and> distinct (dates (extract_entities_regex h t))
   \<and> set (dates (extract_entities_regex h t)) = set (findall date_pattern t)
   \<and> distinct (amounts (extract_entities_regex h t))
   \<and> set (amounts (extract_entities_regex h t)) = set (findall amount_pattern t)
   \<and> distinct (other (extract_entities_regex h t))
   \<and> set (other (extract_entities_regex h t)) = set (findall email_pattern t)"
  by (simp add: extract_entities_regex_def contact_dates contact_amounts contact_emails
        list_set_single set_list_set distinct_list_set)

section \<open>The fallback analysis\<close>

lemma extract_entities_regex_empty:
  "extract_entities_regex h [] = \<lparr>names = [], dates = [], amounts = [], other = []\<rparr>"
  by (simp add: extract_entities_regex_def findall_empty list_set_Nil)

text \<open>
  Claim C10. On the empty text the fallback analysis returns the complete result: the type
  "general_document", the four entity categories present and empty, the empty summary and
  the score 0.
\<close>

theorem fallback_analysis_empty:
  "fallback_analysis h [] =
     PDict [(''document_type'', PStr ''general_document''),
            (''key_entities'',
             PDict [(''names'', PList []), (''dates'', PList []), (''amounts'', PList []),
                    (''other'', PList [])]),
            (''summary'', PStr []),
            (''sentiment_score'', PInt 0)]"
proof -
  have d: "detect_document_type [] = ''general_document''" by code_simp
  have s: "generate_summary [] = []" by code_simp
  have c: "calculate_sentiment [] = 0" by code_simp
  show ?thesis
    by (simp add: fallback_analysis_def d s c extract_entities_regex_empty py_entities_def)
qed

section \<open>The OCR result\<close>

lemma split_acc_spaces_Nil: "\<forall>c\<in>set ws. isspace c \<Longrightarrow> split_acc [] ws = []"
  by (induction ws) auto

lemma split_acc_spaces:
  "\<forall>c\<in>set ws. isspace c \<Longrightarrow> split_acc cur ws = (if cur = [] then [] else [cur])"
  by (cases ws) (auto simp: split_acc_spaces_Nil)

lemma split_acc_append_spaces:
  "\<forall>c\<in>set ws. isspace c \<Longrightarrow> split_acc cur (s @ ws) = split_acc cur s"
  by (induction s arbitrary: cur) (auto simp: split_acc_spaces)

lemma split_acc_dropWhile: "split_acc [] (dropWhile isspace s) = split_acc [] s"
  by (induction s) auto

lemma strip_decomp:
  "dropWhile isspace s = strip s @ rev (takeWhile isspace (rev (dropWhile isspace s)))"
proof -
  have "rev (dropWhile isspace s)
        = takeWhile isspace (rev (dropWhile isspace s)) @ dropWhile isspace (rev (dropWhile isspace s))"
    by simp
  then have "rev (rev (dropWhile isspace s))
        = rev (takeWhile isspace (rev (dropWhile isspace s)) @ dropWhile isspace (rev (dropWhile isspace s)))"
    by (rule arg_cong)
  then show ?thesis by (simp only: rev_append rev_rev_ident strip_def)
qed

lemma split_strip: "split (strip s) = split s"
proof -
  have sp: "\<forall>c\<in>set (rev (takeWhile isspace (rev (dropWhile isspace s)))). isspace c"
    by (auto dest: set_takeWhileD)
  have "split s = split_acc [] (dropWhile isspace s)"
    by (simp add: split_def split_acc_dropWhile)
  also have "\<dots> = split_acc [] (strip s @ rev (takeWhile isspace (rev (dropWhile isspace s))))"
    using strip_decomp [of s] by simp
  also have "\<dots> = split_acc [] (strip s)"
    using sp by (rule split_acc_append_spaces)
  finally show ?thesis by (simp add: split_def)
qed

lemma length_strip: "length (strip s) \<le> length s"
proof -
  have "length (strip s) \<le> length (dropWhile isspace s)"
    unfolding strip_def using length_dropWhile_le [of isspace "rev (dropWhile isspace s)"] by simp
  also have "\<dots> \<le> length s" by (rule length_dropWhile_le)
  finally show ?thesis .
qed

lemma average_confidence_eq:
  "average_confidence xs =
     (if xs = [] then Inr (PInt 0) else Inr (PFloat (round_to_double (mean xs))))"
  by (simp add: average_confidence_def py_truediv_def mean_def)

lemma extract_text_data:
  "extract_text (OcrData conf raw) =
     \<lparr>ocr_text = strip raw,
      confidence = py_round2 (if [c\<leftarrow>conf. 0 < c] = [] then PInt 0
                              else PFloat (round_to_double (mean [c\<leftarrow>conf. 0 < c]))),
      word_count = length (split raw), character_count = length raw, error = None\<rparr>"
  by (simp add: extract_text_def average_confidence_eq Let_def)

lemma extract_text_raises: "extract_text (OcrRaises e) = ocr_failure e"
  by (simp add: extract_text_def)

text \<open>
  Claim C3, as the code has it. The word count is the number of whitespace-delimited tokens
  of the trimmed text that the result returns. The character count is the length of the
  text as the engine delivered it, before trimming, so it is at least the length of the
  returned text and differs from it whenever the raw text starts or ends with whitespace.
\<close>

theorem extract_text_counts:
  "word_count (extract_text engine) = length (split (ocr_text (extract_text engine)))
   \<and> (engine = OcrData conf raw \<longrightarrow>
        ocr_text (extract_text engine) = strip raw
        \<and> character_count (extract_text engine) = length raw
        \<and> length (ocr_text (extract_text engine)) \<le> character_count (extract_text engine))"
proof (cases engine)
  case (OcrRaises e)
  then show ?thesis by (simp add: extract_text_raises ocr_failure_def split_def)
next
  case (OcrData c r)
  then show ?thesis by (simp add: extract_text_data split_strip length_strip)
qed

theorem extract_text_counts_witness:
  "ocr_text (extract_text (OcrData scan_conf scan_raw)) = ''Invoice 42 paid''
   \<and> word_count (extract_text (OcrData scan_conf scan_raw)) = 3
   \<and> character_count (extract_text (OcrData scan_conf scan_raw)) = 16"
proof -
  have s: "strip scan_raw = ''Invoice 42 paid''" by code_simp
  have w: "split ''Invoice 42 paid'' = [''Invoice'', ''42'', ''paid'']" by code_simp
  have l: "length scan_raw = 16" by (simp add: scan_raw_def)
  show ?thesis
    using extract_text_counts [of "OcrData scan_conf scan_raw" scan_conf scan_raw]
    by (simp add: s w l)
qed

text \<open>
  For a text that ends with the engine's line feed the character count is 16, one more than
  the length of the trimmed text in the result.
\<close>

theorem character_count_not_trimmed:
  "character_count (extract_text (OcrData scan_conf scan_raw))
   \<noteq> length (ocr_text (extract_text (OcrData scan_conf scan_raw)))"
proof -
  have s: "strip scan_raw = ''Invoice 42 paid''" by code_simp
  have l: "length scan_raw = 16" by (simp add: scan_raw_def)
  show ?thesis by (simp add: extract_text_data s l)
qed

subsection \<open>The confidence\<close>

text \<open>\<open>round_to_double\<close> moves a number of at least 1 by at most 2^-53 of itself.\<close>

lemma bit_length_bounds:
  "0 < n \<Longrightarrow> 2 ^ (bit_length n - 1) \<le> n \<and> n < 2 ^ bit_length n"
proof (induction n rule: bit_length.induct)
  case (1 n)
  show ?case
  proof (cases "n div 2 = 0")
    case True
    with "1.prems" have "n = 1" by auto
    then show ?thesis by (simp add: bit_length.simps)
  next
    case False
    then have h: "0 < n div 2" by simp
    from "1.prems" have n0: "n \<noteq> 0" by simp
    from "1.IH" [OF n0 h] have lo: "2 ^ (bit_length (n div 2) - 1) \<le> n div 2"
      and hi: "n div 2 < 2 ^ bit_length (n div 2)" by simp_all
    have b1: "0 < bit_length (n div 2)"
      using h by (subst bit_length.simps) simp
    have bl: "bit_length n = Suc (bit_length (n div 2))"
      using n0 by (subst bit_length.simps) simp
    from b1 have "(2::nat) ^ bit_length (n div 2) = 2 * 2 ^ (bit_length (n div 2) - 1)"
      by (cases "bit_length (n div 2)") simp_all
    with lo have "(2::nat) ^ bit_length (n div 2) \<le> 2 * (n div 2)" by simp
    then have a: "2 ^ (bit_length n - 1) \<le> n" by (simp add: bl)
    from hi have "n < 2 * 2 ^ bit_length (n div 2)" by linarith
    then have b: "n < 2 ^ bit_length n" by (simp add: bl)
    from a b show ?thesis ..
  qed
qed

lemma bit_length_mono: "0 < m \<Longrightarrow> m \<le> n \<Longrightarrow> bit_length m \<le> bit_length n"
proof (rule ccontr)
  assume m: "0 < m" and mn: "m \<le> n" and "\<not> bit_length m \<le> bit_length n"
  then have "bit_length n \<le> bit_length m - 1" by simp
  then have "(2::nat) ^ bit_length n \<le> 2 ^ (bit_length m - 1)"
    by (rule power_increasing) simp
  also have "\<dots> \<le> m" using bit_length_bounds [OF m] by simp
  finally have "2 ^ bit_length n \<le> n" using mn by simp
  moreover have "n < 2 ^ bit_length n" using bit_length_bounds [of n] m mn by simp
  ultimately show False by simp
qed

lemma exponent_le:
  assumes "0 < q"
  shows "2 powi exponent q \<le> q"
proof -
  obtain n d where nd: "quotient_of q = (n, d)" by (cases "quotient_of q")
  then have d: "0 < d" by (rule quotient_of_denom_pos)
  from nd have q: "q = of_int n / of_int d" by (rule quotient_of_div)
  with assms d have n: "0 < n" by (simp add: zero_less_divide_iff)
  define bn where "bn = bit_length (nat n)"
  define bd where "bd = bit_length (nat d)"
  have ex: "exponent q = (if 2 powi (int bn - int bd) \<le> q then int bn - int bd
                          else int bn - int bd - 1)"
    by (simp add: exponent_def nd Let_def bn_def bd_def)
  show ?thesis
  proof (cases "2 powi (int bn - int bd) \<le> q")
    case True
    then show ?thesis by (simp add: ex)
  next
    case False
    have bn1: "0 < bn" using n unfolding bn_def by (subst bit_length.simps) simp
    have lo: "2 ^ (bn - 1) \<le> nat n" using bit_length_bounds [of "nat n"] n by (simp add: bn_def)
    have hi: "nat d < 2 ^ bd" using bit_length_bounds [of "nat d"] d by (simp add: bd_def)
    from lo have lo': "(2::rat) ^ (bn - 1) \<le> of_int n"
    proof -
      from lo have "int (2 ^ (bn - 1)) \<le> int (nat n)" by (simp only: of_nat_le_iff)
      then have "(2::int) ^ (bn - 1) \<le> n" using n by simp
      then have "of_int ((2::int) ^ (bn - 1)) \<le> (of_int n :: rat)" by (simp only: of_int_le_iff)
      then show ?thesis by simp
    qed
    from hi have hi': "(of_int d :: rat) \<le> 2 ^ bd"
    proof -
      from hi have "int (nat d) < int (2 ^ bd)" by (simp only: of_nat_less_iff)
      then have "d < (2::int) ^ bd" using d by simp
      then have "(of_int d :: rat) < of_int ((2::int) ^ bd)" by (simp only: of_int_less_iff)
      then show ?thesis by simp
    qed
    have "(2::rat) powi (int bn - int bd - 1) = 2 powi (int (bn - 1)) / 2 powi (int bd)"
      using bn1 by (simp add: power_int_diff of_nat_diff)
    also have "\<dots> = 2 ^ (bn - 1) / 2 ^ bd" by simp
    also have "\<dots> \<le> of_int n / of_int d"
      by (rule frac_le) (use lo' hi' d n in simp_all)
    finally have "2 powi (int bn - int bd - 1) \<le> q" unfolding q .
    then show ?thesis using False by (simp add: ex)
  qed
qed

lemma exponent_nonneg:
  assumes "1 \<le> q"
  shows "0 \<le> exponent q"
proof -
  obtain n d where nd: "quotient_of q = (n, d)" by (cases "quotient_of q")
  then have d: "0 < d" by (rule quotient_of_denom_pos)
  from nd have q: "q = of_int n / of_int d" by (rule quotient_of_div)
  with assms d have "(of_int d :: rat) \<le> of_int n" by (simp add: le_divide_eq)
  then have dn: "d \<le> n" by (simp only: of_int_le_iff)
  define e where "e = int (bit_length (nat n)) - int (bit_length (nat d))"
  have e0: "0 \<le> e"
    using bit_length_mono [of "nat d" "nat n"] d dn by (simp add: e_def)
  have ex: "exponent q = (if 2 powi e \<le> q then e else e - 1)"
    by (simp add: exponent_def nd Let_def e_def)
  show ?thesis
  proof (cases "2 powi e \<le> q")
    case True
    then show ?thesis using e0 by (simp add: ex)
  next
    case False
    then have "e \<noteq> 0" using assms by auto
    then show ?thesis using e0 False by (simp add: ex)
  qed
qed

lemma round_half_even_close: "\<bar>of_int (round_half_even x) - x\<bar> \<le> 1 / 2"
proof -
  have "of_int \<lfloor>x\<rfloor> \<le> x" "x < of_int \<lfloor>x\<rfloor> + 1" by linarith+
  then show ?thesis
    unfolding round_half_even_def Let_def by (auto simp: abs_le_iff; linarith)
qed

lemma round_to_double_close:
  assumes "1 \<le> q"
  shows "\<bar>round_to_double q - q\<bar> \<le> q / 2 ^ 53"
proof -
  define E where "E = exponent q"
  define ulp :: rat where "ulp = 2 powi (E - 52)"
  have q0: "0 < q" using assms by simp
  have E0: "0 \<le> E" unfolding E_def using assms by (rule exponent_nonneg)
  have ulp0: "0 < ulp" by (simp add: ulp_def)
  have r: "round_to_double q = of_int (round_half_even (q / ulp)) * ulp"
    using q0 E0 by (simp add: round_to_double_def E_def ulp_def Let_def max_def)
  have "\<bar>of_int (round_half_even (q / ulp)) - q / ulp\<bar> \<le> 1 / 2"
    by (rule round_half_even_close)
  then have "\<bar>of_int (round_half_even (q / ulp)) - q / ulp\<bar> * ulp \<le> 1 / 2 * ulp"
    using ulp0 by (simp only: mult_le_cancel_right_pos)
  moreover have "\<bar>of_int (round_half_even (q / ulp)) - q / ulp\<bar> * ulp
      = \<bar>of_int (round_half_even (q / ulp)) * ulp - q\<bar>"
  proof -
    have "\<bar>of_int (round_half_even (q / ulp)) - q / ulp\<bar> * ulp
        = \<bar>(of_int (round_half_even (q / ulp)) - q / ulp) * ulp\<bar>"
      using ulp0 by (simp add: abs_mult)
    also have "(of_int (round_half_even (q / ulp)) - q / ulp) * ulp
        = of_int (round_half_even (q / ulp)) * ulp - q"
      using ulp0 by (simp add: left_diff_distrib)
    finally show ?thesis .
  qed
  ultimately have c: "\<bar>round_to_double q - q\<bar> \<le> ulp / 2" by (simp add: r)
  have "ulp = 2 powi E / 2 ^ 52" by (simp add: ulp_def power_int_diff)
  moreover have "2 powi E \<le> q" unfolding E_def using q0 by (rule exponent_le)
  ultimately have "ulp / 2 \<le> q / 2 ^ 53" by simp
  with c show ?thesis by linarith
qed

text \<open>
  \<open>exponent\<close> is the binary exponent, and a number between two neighbouring doubles goes
  to the nearer one.
\<close>

lemma exponent_less:
  assumes "0 < q"
  shows "q < 2 powi (exponent q + 1)"
proof -
  obtain n d where nd: "quotient_of q = (n, d)" by (cases "quotient_of q")
  then have d: "0 < d" by (rule quotient_of_denom_pos)
  from nd have q: "q = of_int n / of_int d" by (rule quotient_of_div)
  with assms d have n: "0 < n" by (simp add: zero_less_divide_iff)
  define bn where "bn = bit_length (nat n)"
  define bd where "bd = bit_length (nat d)"
  have ex: "exponent q = (if 2 powi (int bn - int bd) \<le> q then int bn - int bd
                          else int bn - int bd - 1)"
    by (simp add: exponent_def nd Let_def bn_def bd_def)
  show ?thesis
  proof (cases "2 powi (int bn - int bd) \<le> q")
    case False
    then show ?thesis by (simp add: ex)
  next
    case True
    have bd1: "0 < bd" using d unfolding bd_def by (subst bit_length.simps) simp
    have hi: "nat n < 2 ^ bn" using bit_length_bounds [of "nat n"] n by (simp add: bn_def)
    have lo: "2 ^ (bd - 1) \<le> nat d" using bit_length_bounds [of "nat d"] d by (simp add: bd_def)
    from hi have hi': "(of_int n :: rat) < 2 ^ bn"
    proof -
      from hi have "int (nat n) < int (2 ^ bn)" by (simp only: of_nat_less_iff)
      then have "n < (2::int) ^ bn" using n by simp
      then have "(of_int n :: rat) < of_int ((2::int) ^ bn)" by (simp only: of_int_less_iff)
      then show ?thesis by simp
    qed
    from lo have lo': "(2::rat) ^ (bd - 1) \<le> of_int d"
    proof -
      from lo have "int (2 ^ (bd - 1)) \<le> int (nat d)" by (simp only: of_nat_le_iff)
      then have "(2::int) ^ (bd - 1) \<le> d" using d by simp
      then have "of_int ((2::int) ^ (bd - 1)) \<le> (of_int d :: rat)" by (simp only: of_int_le_iff)
      then show ?thesis by simp
    qed
    have "of_int n / of_int d < (2::rat) ^ bn / 2 ^ (bd - 1)"
      by (rule frac_less) (use lo' hi' d n in simp_all)
    also have "\<dots> = 2 powi (int bn) / 2 powi (int (bd - 1))" by simp
    also have "\<dots> = 2 powi (int bn - int (bd - 1))"
      by (subst power_int_diff) simp_all
    also have "int bn - int (bd - 1) = int bn - int bd + 1"
      using bd1 by simp
    finally have "q < 2 powi (int bn - int bd + 1)" unfolding q .
    then show ?thesis using True by (simp add: ex)
  qed
qed

lemma exponent_unique:
  assumes q: "0 < q" and lo: "2 powi e \<le> q" and hi: "q < 2 powi (e + 1)"
  shows "exponent q = e"
proof (rule ccontr)
  assume ne: "exponent q \<noteq> e"
  show False
  proof (cases "exponent q < e")
    case True
    then have "exponent q + 1 \<le> e" by simp
    then have "(2::rat) powi (exponent q + 1) \<le> 2 powi e"
      by (intro power_int_increasing) simp_all
    with exponent_less [OF q] lo show False by linarith
  next
    case False
    with ne have "e + 1 \<le> exponent q" by simp
    then have "(2::rat) powi (e + 1) \<le> 2 powi exponent q"
      by (intro power_int_increasing) simp_all
    with exponent_le [OF q] hi show False by linarith
  qed
qed

lemma round_half_even_unique:
  assumes "\<bar>of_int m - y\<bar> < 1 / 2"
  shows "round_half_even y = m"
proof -
  have "\<bar>of_int (round_half_even y) - y\<bar> \<le> 1 / 2" by (rule round_half_even_close)
  with assms have "\<bar>(of_int (round_half_even y) :: rat) - of_int m\<bar> < 1" by linarith
  then have "\<bar>(of_int (round_half_even y - m) :: rat)\<bar> < of_int 1" by simp
  then have "(of_int \<bar>round_half_even y - m\<bar> :: rat) < of_int 1" by (simp only: of_int_abs)
  then have "\<bar>round_half_even y - m\<bar> < 1" by (simp only: of_int_less_iff)
  then show ?thesis by simp
qed

lemma round_to_double_eq:
  assumes q: "0 < q" and lo: "2 powi e \<le> q" and hi: "q < 2 powi (e + 1)"
    and e: "- 1022 \<le> e" and m: "\<bar>of_int m - q / 2 powi (e - 52)\<bar> < 1 / 2"
  shows "round_to_double q = of_int m * 2 powi (e - 52)"
proof -
  have ex: "exponent q = e" using q lo hi by (rule exponent_unique)
  have "round_half_even (q / 2 powi (e - 52)) = m" using m by (rule round_half_even_unique)
  then show ?thesis
    using q e by (simp add: round_to_double_def ex Let_def max_def)
qed

lemma round2_close: "\<bar>of_int (round_half_even (q * 100)) / 100 - q\<bar> \<le> 1 / 200"
proof -
  have "\<bar>of_int (round_half_even (q * 100)) - q * 100\<bar> \<le> 1 / 2"
    by (rule round_half_even_close)
  then show ?thesis by (simp add: abs_le_iff field_simps)
qed

lemma mean_ge_1:
  assumes "xs \<noteq> []" and "\<forall>x\<in>set xs. 0 < x"
  shows "1 \<le> mean xs"
proof -
  have "int (length xs) \<le> sum_list xs"
    using assms(2) by (induction xs) auto
  then have "(of_int (int (length xs)) :: rat) \<le> of_int (sum_list xs)"
    by (simp only: of_int_le_iff)
  moreover have "0 < length xs" using assms(1) by simp
  ultimately show ?thesis by (simp add: mean_def le_divide_eq)
qed

lemma hundredth_of_mean:
  fixes S :: int and L :: nat and x :: rat
  assumes L: "0 < L" and S: "S * 200 < 2 ^ 53"
    and x: "\<bar>x - of_int S / of_nat L\<bar> \<le> (of_int S / of_nat L) / 2 ^ 53"
  shows "\<bar>of_int (round_half_even (x * 100)) / 100 - of_int S / of_nat L :: rat\<bar> \<le> 1 / 200"
proof -
  define k where "k = round_half_even (x * 100)"
  define Y :: rat where "Y = x * 100 * of_nat L"
  have Lr: "(0::rat) < of_nat L" using L by simp
  have ky: "\<bar>of_int k - x * 100\<bar> \<le> 1 / 2"
    unfolding k_def by (rule round_half_even_close)
  have kY: "\<bar>of_int (k * int L) - Y\<bar> \<le> of_nat L / 2"
  proof -
    have "\<bar>of_int k - x * 100\<bar> * of_nat L \<le> 1 / 2 * of_nat L"
      using ky Lr by (simp only: mult_le_cancel_right_pos)
    moreover have "\<bar>of_int k - x * 100\<bar> * of_nat L = \<bar>(of_int k - x * 100) * of_nat L\<bar>"
      using Lr by (simp add: abs_mult)
    moreover have "(of_int k - x * 100) * of_nat L = of_int (k * int L) - Y"
      by (simp add: Y_def left_diff_distrib)
    ultimately show ?thesis by simp
  qed
  have Sr: "(of_int S :: rat) * 200 < 2 ^ 53"
  proof -
    from S have "(of_int (S * 200) :: rat) < of_int (2 ^ 53)" by (simp only: of_int_less_iff)
    then show ?thesis by simp
  qed
  have Ym: "\<bar>Y - 100 * of_int S\<bar> < 1 / 2"
  proof -
    have "\<bar>x - of_int S / of_nat L\<bar> * (100 * of_nat L)
          \<le> (of_int S / of_nat L) / 2 ^ 53 * (100 * of_nat L)"
      using x Lr by (intro mult_right_mono) simp_all
    moreover have "\<bar>x - of_int S / of_nat L\<bar> * (100 * of_nat L)
          = \<bar>(x - of_int S / of_nat L) * (100 * of_nat L)\<bar>"
      using Lr by (simp add: abs_mult)
    moreover have "(x - of_int S / of_nat L) * (100 * of_nat L) = Y - 100 * of_int S"
      using Lr by (simp add: Y_def field_simps)
    moreover have "(of_int S / of_nat L) / 2 ^ 53 * (100 * of_nat L)
          = (of_int S * 100 / 2 ^ 53 :: rat)"
      using Lr by simp
    moreover have "of_int S * 100 / 2 ^ 53 < (1 / 2 :: rat)"
      using Sr by simp
    ultimately show ?thesis by simp
  qed
  have "\<bar>of_int (k * int L) - 100 * of_int S\<bar> \<le> (of_nat L / 2 :: rat)"
  proof (rule ccontr)
    assume "\<not> \<bar>of_int (k * int L) - 100 * of_int S\<bar> \<le> (of_nat L / 2 :: rat)"
    then have "(of_nat L :: rat) < \<bar>of_int (2 * (k * int L) - 200 * S)\<bar>"
      by (simp add: abs_if split: if_splits)
    then have "(of_int (int L) :: rat) < of_int \<bar>2 * (k * int L) - 200 * S\<bar>"
      by simp
    then have "int L < \<bar>2 * (k * int L) - 200 * S\<bar>" by (simp only: of_int_less_iff)
    then have "int L + 1 \<le> \<bar>2 * (k * int L) - 200 * S\<bar>" by simp
    then have "(of_int (int L + 1) :: rat) \<le> of_int \<bar>2 * (k * int L) - 200 * S\<bar>"
      by (simp only: of_int_le_iff)
    then have "(of_nat L :: rat) + 1 \<le> \<bar>2 * of_int (k * int L) - 200 * of_int S\<bar>"
      by simp
    with kY Ym show False by (simp add: abs_if split: if_splits)
  qed
  then have b: "\<bar>of_int (k * int L) - 100 * of_int S\<bar> / (100 * of_nat L)
      \<le> (of_nat L / 2 :: rat) / (100 * of_nat L)"
    using Lr by (intro divide_right_mono) simp_all
  have e: "(of_int k / 100 - of_int S / of_nat L :: rat)
      = (of_int (k * int L) - 100 * of_int S) / (100 * of_nat L)"
    using Lr by (simp add: field_simps)
  have "\<bar>of_int k / 100 - of_int S / of_nat L :: rat\<bar>
      = \<bar>of_int (k * int L) - 100 * of_int S\<bar> / (100 * of_nat L)"
    unfolding e using Lr by (simp add: abs_mult)
  also note b
  also have "(of_nat L / 2 :: rat) / (100 * of_nat L) = 1 / 200"
    using Lr by simp
  finally show ?thesis by (simp only: k_def)
qed

lemma positive_mean:
  assumes "[c\<leftarrow>conf. 0 < c] \<noteq> []"
  shows "1 \<le> mean [c\<leftarrow>conf. (0::int) < c]"
  using assms by (intro mean_ge_1) simp_all

lemma hundredths_ge:
  assumes "[c\<leftarrow>conf. 0 < c] \<noteq> []"
  shows "100 \<le> hundredths [c\<leftarrow>conf. (0::int) < c]"
proof -
  define m where "m = mean [c\<leftarrow>conf. (0::int) < c]"
  define x where "x = round_to_double m"
  have m1: "1 \<le> m" unfolding m_def using assms by (rule positive_mean)
  have "\<bar>x - m\<bar> \<le> m / 2 ^ 53" unfolding x_def using m1 by (rule round_to_double_close)
  then have "m - m / 2 ^ 53 \<le> x" by linarith
  moreover have "m - m / 2 ^ 53 = m * (1 - 1 / 2 ^ 53)" by (simp add: right_diff_distrib)
  moreover have "1 * (1 - 1 / 2 ^ 53) \<le> m * (1 - 1 / 2 ^ 53)"
    using m1 by (intro mult_right_mono) simp_all
  ultimately have x1: "1 - 1 / 2 ^ 53 \<le> x" by simp
  have "(999 / 1000 :: rat) \<le> 1 - 1 / 2 ^ 53" by simp
  with x1 have x2: "999 / 1000 \<le> x" by linarith
  have "\<bar>of_int (round_half_even (x * 100)) - x * 100\<bar> \<le> 1 / 2"
    by (rule round_half_even_close)
  with x2 have "(99::rat) < of_int (round_half_even (x * 100))" by linarith
  then have "(of_int 99 :: rat) < of_int (round_half_even (x * 100))" by simp
  then have "99 < round_half_even (x * 100)" by (simp only: of_int_less_iff)
  then show ?thesis by (simp add: hundredths_def x_def m_def)
qed

text \<open>
  Claim C5. When the engine delivers its data, \<open>extract_text\<close> reports no error and the
  division never fails. When no token has a positive confidence, the confidence is the
  integer 0. Otherwise it is the mean of the positive confidences rounded to two decimals,
  as a float: the float mean is within 2^-53 of the mean, relatively; the number of
  hundredths is within half a hundredth of the float mean and, for a sum of confidences
  below 2^53 / 200, also of the mean itself; and the confidence is the double nearest to
  that many hundredths, again within 2^-53 of it. When the engine raises, the confidence
  is 0.
\<close>

theorem extract_text_confidence:
  "(engine = OcrData conf raw \<longrightarrow>
      error (extract_text engine) = None
      \<and> average_confidence [c\<leftarrow>conf. 0 < c] \<noteq> Inl ZeroDivisionError
      \<and> ([c\<leftarrow>conf. 0 < c] = [] \<longrightarrow> confidence (extract_text engine) = PInt 0)
      \<and> ([c\<leftarrow>conf. 0 < c] \<noteq> [] \<longrightarrow>
           confidence (extract_text engine)
             = PFloat (round_to_double (of_int (hundredths [c\<leftarrow>conf. 0 < c]) / 100))
           \<and> \<bar>round_to_double (mean [c\<leftarrow>conf. 0 < c]) - mean [c\<leftarrow>conf. 0 < c]\<bar>
               \<le> mean [c\<leftarrow>conf. 0 < c] / 2 ^ 53
           \<and> \<bar>of_int (hundredths [c\<leftarrow>conf. 0 < c]) / 100
                - round_to_double (mean [c\<leftarrow>conf. 0 < c])\<bar> \<le> 1 / 200
           \<and> (sum_list [c\<leftarrow>conf. 0 < c] * 200 < 2 ^ 53 \<longrightarrow>
                \<bar>of_int (hundredths [c\<leftarrow>conf. 0 < c]) / 100 - mean [c\<leftarrow>conf. 0 < c]\<bar>
                \<le> 1 / 200)
           \<and> \<bar>round_to_double (of_int (hundredths [c\<leftarrow>conf. 0 < c]) / 100)
                - of_int (hundredths [c\<leftarrow>conf. 0 < c]) / 100\<bar>
               \<le> of_int (hundredths [c\<leftarrow>conf. 0 < c]) / 100 / 2 ^ 53))
   \<and> (engine = OcrRaises e \<longrightarrow> confidence (extract_text engine) = PInt 0)"
proof -
  define pos where "pos = [c\<leftarrow>conf. 0 < c]"
  have a: "error (extract_text (OcrData conf raw)) = None"
    by (simp add: extract_text_data)
  have b: "average_confidence pos \<noteq> Inl ZeroDivisionError"
    by (simp add: average_confidence_eq)
  have c: "pos = [] \<longrightarrow> confidence (extract_text (OcrData conf raw)) = PInt 0"
    by (simp add: extract_text_data py_round2_def pos_def)
  have d: "pos \<noteq> [] \<longrightarrow>
           confidence (extract_text (OcrData conf raw))
             = PFloat (round_to_double (of_int (hundredths pos) / 100))"
    by (simp add: extract_text_data py_round2_def hundredths_def pos_def)
  have e1: "pos \<noteq> [] \<longrightarrow> \<bar>round_to_double (mean pos) - mean pos\<bar> \<le> mean pos / 2 ^ 53"
    unfolding pos_def by (intro impI round_to_double_close positive_mean)
  have e2: "\<bar>of_int (hundredths pos) / 100 - round_to_double (mean pos)\<bar> \<le> 1 / 200"
    unfolding hundredths_def by (rule round2_close)
  have e3: "pos \<noteq> [] \<longrightarrow> sum_list pos * 200 < 2 ^ 53 \<longrightarrow>
            \<bar>of_int (hundredths pos) / 100 - mean pos\<bar> \<le> 1 / 200"
  proof (intro impI)
    assume ne: "pos \<noteq> []" and s: "sum_list pos * 200 < 2 ^ 53"
    from ne have l: "0 < length pos" by simp
    from ne e1 have x: "\<bar>round_to_double (mean pos) - of_int (sum_list pos) / of_nat (length pos)\<bar>
          \<le> of_int (sum_list pos) / of_nat (length pos) / 2 ^ 53"
      by (simp add: mean_def)
    show "\<bar>of_int (hundredths pos) / 100 - mean pos\<bar> \<le> 1 / 200"
      using hundredth_of_mean [OF l s x] by (simp add: hundredths_def mean_def)
  qed
  have e4: "pos \<noteq> [] \<longrightarrow>
            \<bar>round_to_double (of_int (hundredths pos) / 100) - of_int (hundredths pos) / 100\<bar>
            \<le> of_int (hundredths pos) / 100 / 2 ^ 53"
  proof (intro impI round_to_double_close)
    assume "pos \<noteq> []"
    then have "100 \<le> hundredths pos" unfolding pos_def by (rule hundredths_ge)
    then have "(of_int 100 :: rat) \<le> of_int (hundredths pos)" by (simp only: of_int_le_iff)
    then show "(1::rat) \<le> of_int (hundredths pos) / 100" by simp
  qed
  have f: "confidence (extract_text (OcrRaises e)) = PInt 0"
    by (simp add: extract_text_raises ocr_failure_def)
  show ?thesis using a b c d e1 e2 e3 e4 f unfolding pos_def by blast
qed

lemma confidence_value:
  assumes "[c\<leftarrow>conf. 0 < c] = pos" and "pos \<noteq> []"
    and "round_to_double (mean pos) = x" and "round_half_even (x * 100) = k"
    and "round_to_double (of_int k / 100) = y"
  shows "confidence (extract_text (OcrData conf raw)) = PFloat y"
  using assms by (simp add: extract_text_data py_round2_def)

lemma double_9433: "round_to_double (of_int 9433 / 100) = 6637883638279045 / 70368744177664"
proof -
  have "round_to_double (of_int 9433 / 100) = of_int 6637883638279045 * 2 powi (6 - 52)"
    by (rule round_to_double_eq) simp_all
  then show ?thesis by simp
qed

lemma tie_conf_facts:
  "[c\<leftarrow>tie_conf. 0 < c] = tie_conf" "tie_conf \<noteq> []" "mean tie_conf = 3773 / 40"
  "sum_list tie_conf * 200 < 2 ^ 53"
  by (simp_all add: tie_conf_def mean_def sum_list_replicate)

lemma tie_conf_double:
  "round_to_double (mean tie_conf) = 6637531794558157 / 70368744177664"
proof -
  have "round_to_double (3773 / 40) = of_int 6637531794558157 * 2 powi (6 - 52)"
    by (rule round_to_double_eq) simp_all
  then have "round_to_double (3773 / 40) = 6637531794558157 / 70368744177664" by simp
  then show ?thesis by (simp only: tie_conf_facts(3))
qed

lemma tie_conf_hundredths: "hundredths tie_conf = 9433"
  unfolding hundredths_def tie_conf_double by (rule round_half_even_unique) simp

theorem extract_text_confidence_witness:
  "[c\<leftarrow>tie_conf. 0 < c] = tie_conf
   \<and> tie_conf \<noteq> []
   \<and> sum_list tie_conf * 200 < 2 ^ 53
   \<and> mean tie_conf = 3773 / 40
   \<and> hundredths tie_conf = 9433
   \<and> confidence (extract_text (OcrData tie_conf scan_raw))
       = PFloat (6637883638279045 / 70368744177664)
   \<and> error (extract_text (OcrData tie_conf scan_raw)) = None
   \<and> confidence (extract_text (OcrData [-1, 0] [CHR 0x0C])) = PInt 0"
proof -
  have ne: "[c\<leftarrow>tie_conf. 0 < c] \<noteq> []"
    by (simp only: tie_conf_facts(1)) (rule tie_conf_facts(2))
  from extract_text_confidence [of "OcrData tie_conf scan_raw" tie_conf scan_raw] ne
  have "confidence (extract_text (OcrData tie_conf scan_raw))
          = PFloat (round_to_double (of_int (hundredths [c\<leftarrow>tie_conf. 0 < c]) / 100))"
    and e: "error (extract_text (OcrData tie_conf scan_raw)) = None"
    by blast+
  then have c: "confidence (extract_text (OcrData tie_conf scan_raw))
          = PFloat (6637883638279045 / 70368744177664)"
    by (simp only: tie_conf_facts tie_conf_hundredths double_9433)
  have z: "confidence (extract_text (OcrData [-1, 0] [CHR 0x0C])) = PInt 0"
    using extract_text_confidence [of "OcrData [-1, 0] [CHR 0x0C]" "[-1, 0]" "[CHR 0x0C]"]
    by simp
  show ?thesis using c e z tie_conf_facts tie_conf_hundredths by blast
qed

text \<open>
  Three more inputs. The mean 92.675 is no double and the double next to it lies below, so
  the confidence is 92.67; the mean 94.125 is a double, the tie goes to the even digit and
  the confidence is 94.12; the scan's mean 283/3 gives 94.33.
\<close>

lemma confidence_tie_conf_low:
  "confidence (extract_text (OcrData tie_conf_low scan_raw))
     = PFloat (6521071522944123 / 70368744177664)"
proof (rule confidence_value)
  show "[c\<leftarrow>tie_conf_low. 0 < c] = tie_conf_low" "tie_conf_low \<noteq> []"
    by (simp_all add: tie_conf_low_def)
  have m: "mean tie_conf_low = 3707 / 40"
    by (simp add: tie_conf_low_def mean_def sum_list_replicate)
  have "round_to_double (3707 / 40) = of_int 6521423366665011 * 2 powi (6 - 52)"
    by (rule round_to_double_eq) simp_all
  then have r: "round_to_double (3707 / 40) = 6521423366665011 / 70368744177664" by simp
  show "round_to_double (mean tie_conf_low) = 6521423366665011 / 70368744177664"
    unfolding m by (rule r)
  show "round_half_even (6521423366665011 / 70368744177664 * 100) = 9267"
    by (rule round_half_even_unique) simp
  have "round_to_double (of_int 9267 / 100) = of_int 6521071522944123 * 2 powi (6 - 52)"
    by (rule round_to_double_eq) simp_all
  then show "round_to_double (of_int 9267 / 100) = 6521071522944123 / 70368744177664"
    by simp
qed

lemma confidence_eighth_conf:
  "confidence (extract_text (OcrData eighth_conf scan_raw))
     = PFloat (827888275250217 / 8796093022208)"
proof (rule confidence_value)
  show "[c\<leftarrow>eighth_conf. 0 < c] = eighth_conf" "eighth_conf \<noteq> []"
    by (simp_all add: eighth_conf_def)
  have m: "mean eighth_conf = 753 / 8"
    by (simp add: eighth_conf_def mean_def sum_list_replicate)
  have "round_to_double (753 / 8) = of_int 6623458045722624 * 2 powi (6 - 52)"
    by (rule round_to_double_eq) simp_all
  then have r: "round_to_double (753 / 8) = 753 / 8" by simp
  show "round_to_double (mean eighth_conf) = 753 / 8"
    unfolding m by (rule r)
  have "\<lfloor>18825 / 2 :: rat\<rfloor> = 9412" by (rule floor_unique) simp_all
  then have "round_half_even (18825 / 2) = 9412"
    by (simp add: round_half_even_def Let_def)
  then show "round_half_even (753 / 8 * 100) = 9412"
    by simp
  have "round_to_double (of_int 9412 / 100) = of_int 6623106202001736 * 2 powi (6 - 52)"
    by (rule round_to_double_eq) simp_all
  then show "round_to_double (of_int 9412 / 100) = 827888275250217 / 8796093022208"
    by simp
qed

lemma confidence_scan:
  "confidence (extract_text (OcrData scan_conf scan_raw))
     = PFloat (6637883638279045 / 70368744177664)"
proof (rule confidence_value)
  show "[c\<leftarrow>scan_conf. 0 < c] = [96, 95, 92]" "[96, 95, 92] \<noteq> ([] :: int list)"
    by (simp_all add: scan_conf_def)
  have m: "mean [96, 95, 92] = 283 / 3" by (simp add: mean_def)
  have "round_to_double (283 / 3) = of_int 6638118200759637 * 2 powi (6 - 52)"
    by (rule round_to_double_eq) simp_all
  then have r: "round_to_double (283 / 3) = 6638118200759637 / 70368744177664" by simp
  show "round_to_double (mean [96, 95, 92]) = 6638118200759637 / 70368744177664"
    unfolding m by (rule r)
  show "round_half_even (6638118200759637 / 70368744177664 * 100) = 9433"
    by (rule round_half_even_unique) simp
  show "round_to_double (of_int 9433 / 100) = 6637883638279045 / 70368744177664"
    by (rule double_9433)
qed

section \<open>analyze_document\<close>






section \<open>process_document\<close>

lemma strip_Nil: "strip [] = []"
  by (simp add: strip_def)



lemma process_image_no_text:
  "startswith mime ''image/'' \<Longrightarrow> error (extract_text (ocr_engine env path)) \<in> {None, Some []} \<Longrightarrow>
   strip (ocr_text (extract_text (ocr_engine env path))) = [] \<Longrightarrow>
   process_document env path mime =
     \<lparr>file_path = path, mime_type = mime, processing_started_at = now_start env,
      steps_completed = [''ocr''], errors = [''No text extracted from document''],
      ocr_result = Some (extract_text (ocr_engine env path)), nlp_result = None,
      extracted_text = None, document_type = None, key_entities = None,
      summary = None, sentiment_score = None, confidence_score = None,
      processing_completed_at = None, status = None\<rparr>"
  by (auto simp add: process_document_def nlp_step_def Let_def)




text \<open>
  Both early returns leave the record without a status: only the exception handler and the
  last step assign one.
\<close>

lemma blank_image_status_unset:
  "status (process_document env_blank ''scan.png'' ''image/png'') = None"
proof -
  have m: "startswith ''image/png'' ''image/''" by simp
  have b: "ocr_engine env_blank ''scan.png'' = OcrData [-1] [CHR 0x0C]"
    by (simp add: env_blank_def env_text_def ocr_of_def)
  have s: "strip [CHR 0x0C] = []" by code_simp
  have e: "error (extract_text (ocr_engine env_blank ''scan.png'')) \<in> {None, Some []}"
    by (simp add: b extract_text_data)
  have s': "strip (ocr_text (extract_text (ocr_engine env_blank ''scan.png''))) = []"
    by (simp add: b extract_text_data s strip_Nil)
  show ?thesis using process_image_no_text [OF m e s'] by simp
qed

subsection \<open>A text file through the fallback\<close>

lemma quarter_type: "detect_document_type quarter_text = ''general_document''"
  by code_simp

lemma quarter_summary: "generate_summary quarter_text = quarter_text"
  by code_simp

lemma quarter_sentiment: "calculate_sentiment quarter_text = 20"
  by code_simp

lemma quarter_dates: "findall date_pattern quarter_text = [''2024-01-15'']"
  by code_simp

lemma quarter_amounts: "findall amount_pattern quarter_text = [''$2.5'']"
  by code_simp

lemma quarter_emails: "findall email_pattern quarter_text = []"
  by code_simp

lemma quarter_not_blank: "strip quarter_text \<noteq> []"
  by code_simp

lemma abbreviated_amount: "findall amount_pattern ''$2.5M'' = [''$2.5'']"
  by code_simp

lemma fallback_quarter:
  "fallback_analysis h quarter_text =
     PDict [(''document_type'', PStr ''general_document''),
            (''key_entities'',
             PDict [(''names'', PList []), (''dates'', PList [PStr ''2024-01-15'']),
                    (''amounts'', PList [PStr ''$2.5'']), (''other'', PList [])]),
            (''summary'', PStr quarter_text),
            (''sentiment_score'', PInt 20)]"
  by (simp add: fallback_analysis_def extract_entities_regex_def py_entities_def quarter_type
        quarter_summary quarter_sentiment quarter_dates quarter_amounts quarter_emails
        list_set_single list_set_Nil)

lemma compile_results_dict:
  "compile_results env r ocr txt (PDict kvs) =
     r\<lparr>extracted_text := Some txt,
       document_type := Some (case map_of kvs ''document_type'' of
                                None \<Rightarrow> PStr ''unknown'' | Some v \<Rightarrow> v),
       key_entities := Some (case map_of kvs ''key_entities'' of
                               None \<Rightarrow> PDict [] | Some v \<Rightarrow> v),
       summary := Some (case map_of kvs ''summary'' of None \<Rightarrow> PStr [] | Some v \<Rightarrow> v),
       sentiment_score := Some (case map_of kvs ''sentiment_score'' of
                                  None \<Rightarrow> PInt 0 | Some v \<Rightarrow> v),
       confidence_score := Some (case ocr of Some x \<Rightarrow> confidence x | None \<Rightarrow> PInt 100),
       processing_completed_at := Some (now_end env),
       status := Some ''completed''\<rparr>"
  by (simp add: compile_results_def get_def Let_def)

lemma process_text_file:
  assumes "\<not> startswith mime ''image/''" and "read_file env path = Inr txt"
    and "strip txt \<noteq> []" and "\<not> has_client (openai_api_key env)"
  shows "process_document env path mime =
     compile_results env
       \<lparr>file_path = path, mime_type = mime, processing_started_at = now_start env,
        steps_completed = [''text_extraction'', ''nlp_analysis''], errors = [],
        ocr_result = None, nlp_result = Some (fallback_analysis (set_iteration env) txt),
        extracted_text = None, document_type = None, key_entities = None,
        summary = None, sentiment_score = None, confidence_score = None,
        processing_completed_at = None, status = None\<rparr>
       None txt (fallback_analysis (set_iteration env) txt)"
  using assms by (simp add: process_document_def nlp_step_def analyze_document_def Let_def)

text \<open>
  Claim C4. A text file that holds "Great results this quarter, revenue $2.5M, date
  2024-01-15", processed without a credential, ends completed with the type
  "general_document" (the text holds no keyword of any class), the score 20, the date
  "2024-01-15" and the amount "$2.5": that is the match of the amount pattern on "$2.5M",
  which the pattern does not match as a whole, so "$2.5M" is not among the amounts.
\<close>

theorem quarter_report_text_file:
  "\<not> startswith mime ''image/'' \<and> read_file env path = Inr quarter_text
   \<and> \<not> has_client (openai_api_key env) \<longrightarrow>
     status (process_document env path mime) = Some ''completed''
     \<and> document_type (process_document env path mime) = Some (PStr ''general_document'')
     \<and> sentiment_score (process_document env path mime) = Some (PInt 20)
     \<and> key_entities (process_document env path mime)
         = Some (PDict [(''names'', PList []), (''dates'', PList [PStr ''2024-01-15'']),
                        (''amounts'', PList [PStr ''$2.5'']), (''other'', PList [])])
     \<and> steps_completed (process_document env path mime)
         = [''text_extraction'', ''nlp_analysis'']
     \<and> errors (process_document env path mime) = []
     \<and> findall amount_pattern ''$2.5M'' = [''$2.5'']
     \<and> ''$2.5M'' \<notin> set (findall amount_pattern quarter_text)"
proof (intro impI)
  assume a: "\<not> startswith mime ''image/'' \<and> read_file env path = Inr quarter_text
   \<and> \<not> has_client (openai_api_key env)"
  then have p: "process_document env path mime =
     compile_results env
       \<lparr>file_path = path, mime_type = mime, processing_started_at = now_start env,
        steps_completed = [''text_extraction'', ''nlp_analysis''], errors = [],
        ocr_result = None, nlp_result = Some (fallback_analysis (set_iteration env) quarter_text),
        extracted_text = None, document_type = None, key_entities = None,
        summary = None, sentiment_score = None, confidence_score = None,
        processing_completed_at = None, status = None\<rparr>
       None quarter_text (fallback_analysis (set_iteration env) quarter_text)"
    using process_text_file [of mime env path quarter_text] quarter_not_blank by blast
  show "status (process_document env path mime) = Some ''completed''
     \<and> document_type (process_document env path mime) = Some (PStr ''general_document'')
     \<and> sentiment_score (process_document env path mime) = Some (PInt 20)
     \<and> key_entities (process_document env path mime)
         = Some (PDict [(''names'', PList []), (''dates'', PList [PStr ''2024-01-15'']),
                        (''amounts'', PList [PStr ''$2.5'']), (''other'', PList [])])
     \<and> steps_completed (process_document env path mime)
         = [''text_extraction'', ''nlp_analysis'']
     \<and> errors (process_document env path mime) = []
     \<and> findall amount_pattern ''$2.5M'' = [''$2.5'']
     \<and> ''$2.5M'' \<notin> set (findall amount_pattern quarter_text)"
    unfolding p fallback_quarter compile_results_dict
    by (simp add: abbreviated_amount quarter_amounts)
qed

theorem quarter_report_text_file_witness:
  "\<not> startswith ''text/plain'' ''image/''
   \<and> read_file env_text ''q1.txt'' = Inr quarter_text
   \<and> \<not> has_client (openai_api_key env_text)
   \<and> status (process_document env_text ''q1.txt'' ''text/plain'') = Some ''completed''
   \<and> document_type (process_document env_text ''q1.txt'' ''text/plain'')
       = Some (PStr ''general_document'')
   \<and> sentiment_score (process_document env_text ''q1.txt'' ''text/plain'') = Some (PInt 20)
   \<and> key_entities (process_document env_text ''q1.txt'' ''text/plain'')
       = Some (PDict [(''names'', PList []), (''dates'', PList [PStr ''2024-01-15'']),
                      (''amounts'', PList [PStr ''$2.5'']), (''other'', PList [])])"
proof -
  have a: "\<not> startswith ''text/plain'' ''image/''" by simp
  have b: "read_file env_text ''q1.txt'' = Inr quarter_text"
    by (simp add: env_text_def file_with_def)
  have c: "\<not> has_client (openai_api_key env_text)"
    by (simp add: env_text_def has_client_def)
  show ?thesis
    using a b c quarter_report_text_file [of "''text/plain''" env_text "''q1.txt''"]
    by blast
qed

subsection \<open>Determinism of the fallback\<close>







text \<open>
  The arrangement of a category with two values does follow the set order, which is fixed
  while an interpreter runs.
\<close>

lemma set_order_matters:
  "dates (extract_entities_regex insertion_order two_dates_text) = [''2024-01-15'', ''2024-02-01'']
   \<and> dates (extract_entities_regex latest_first two_dates_text) = [''2024-02-01'', ''2024-01-15'']"
  by code_simp

end
